theory Spec2Isabelle
  imports Main "HOL-Library.AList" "HOL-Library.List_Lexorder" "HOL-Library.Multiset"
begin

section \<open>JavaScript values and plain objects\<close>

text \<open>
  A field value is either \<open>undefined\<close> or a primitive of the type \<open>'v\<close> (numbers other
  than NaN, strings, booleans), on which \<open>===\<close> is equality. Reading a property an object
  does not own gives \<open>undefined\<close>. (The section on the Entity takes for \<open>'v\<close> a type
  that has, beside the primitives, the other values an Entity instance can hold.)

  A plain object is the list of its own enumerable properties in key order, so that
  \<open>Object.keys\<close> is the list of first components. Writing a property replaces the value
  of an existing key where it stands and appends a new key at the end.
\<close>

datatype 'v jsval = Undefined | Val 'v

type_synonym 'v obj = "(string \<times> 'v jsval) list"

definition obj_keys :: "'v obj \<Rightarrow> string list" where
  "obj_keys obj = map fst obj"

definition get_prop :: "'v obj \<Rightarrow> string \<Rightarrow> 'v jsval" where
  "get_prop obj k = (case map_of obj k of None \<Rightarrow> Undefined | Some v \<Rightarrow> v)"

definition set_prop :: "string \<Rightarrow> 'v jsval \<Rightarrow> 'v obj \<Rightarrow> 'v obj" where
  "set_prop k v obj = AList.update k v obj"

text \<open>
  \<open>Object.assign(target, source)\<close>: for each own key of the source, in order,
  \<open>target[key] = source[key]\<close>. A source that is \<open>undefined\<close> contributes nothing, which
  is the empty list here.
\<close>

definition object_assign :: "'v obj \<Rightarrow> 'v obj \<Rightarrow> 'v obj" where
  "object_assign target source =
     fold (\<lambda>k t. set_prop k (get_prop source k) t) (obj_keys source) target"

section \<open>The Manager, mutation descriptors and criteria\<close>

text \<open>
  The argument of \<open>update\<close> is whatever the caller passes: an object to merge, given
  by its own enumerable properties, a function from entity to entity, or any other value,
  which \<open>Primitive\<close> carries.
\<close>

datatype 'v updater =
    MergeObj "'v obj"
  | Transform "'v obj \<Rightarrow> 'v obj"
  | Primitive "'v jsval"

text \<open>
  \<open>{type: UPDATE, payload: {idArr, updater}}\<close> and \<open>{type: DELETE, payload: idArr}\<close>.
\<close>

datatype 'v mutation =
    UPDATE "'v jsval list" "'v updater"
  | DELETE "'v jsval list"

text \<open>
  What QuerySet and Entity use of the EntityManager: \<open>getIdAttribute()\<close>,
  \<open>getEntityMap()\<close> (indexed by identifier) and the array \<open>mutations\<close>. Every QuerySet
  and Entity holds a reference to the one Manager, so the Manager is passed to each
  operation and returned by the operations that write to it.
\<close>

record 'v manager =
  idAttribute :: string
  entityMap :: "'v jsval \<rightharpoonup> 'v obj"
  mutations :: "'v mutation list"

text \<open>
  The argument of \<open>filter\<close> and \<open>exclude\<close>: an object of properties to match, or a
  function from the full entity to a truth value.
\<close>

datatype 'v criteria =
    LookupObj "'v obj"
  | Predicate "'v obj \<Rightarrow> bool"

text \<open>
  \<open>Object.keys\<close> of the argument and the property reads on it. A function owns no
  enumerable property.
\<close>

fun criteria_props :: "'v criteria \<Rightarrow> 'v obj" where
  "criteria_props (LookupObj l) = l"
| "criteria_props (Predicate p) = []"

text \<open>
  Modelled from the spec: \<open>match\<close> of \<open>utils.js\<close>, which is not among the sources. The
  spec gives its rule as exact equality on every listed field, a conjunction over the
  fields: every own key of the first argument has the same value in both arguments.
\<close>

definition match :: "'v criteria \<Rightarrow> 'v obj \<Rightarrow> bool" where
  "match lookupObj entity =
     list_all (\<lambda>key. get_prop (criteria_props lookupObj) key = get_prop entity key)
       (obj_keys (criteria_props lookupObj))"

section \<open>Ordering of values\<close>

text \<open>
  \<open>sortByAll\<close> belongs to lodash. It compares two entities by the values of the listed
  properties, the first difference deciding, and keeps entities that agree on all of
  them in their given order. Its comparison of two values returns 1, -1 or 0 and puts
  \<open>undefined\<close> after every other value. Values of one sort key are taken from a linearly
  ordered type (numbers, or strings): the comparison of a number with a string is not
  an order and is left out. A field name is a plain property name, not a path with dots.
\<close>

fun baseCompareAscending :: "'v::linorder jsval \<Rightarrow> 'v jsval \<Rightarrow> int" where
  "baseCompareAscending (Val a) (Val b) = (if b < a then 1 else if a < b then - 1 else 0)"
| "baseCompareAscending Undefined (Val b) = 1"
| "baseCompareAscending (Val a) Undefined = - 1"
| "baseCompareAscending Undefined Undefined = 0"

instantiation jsval :: (linorder) linorder
begin

definition less_eq_jsval :: "'a jsval \<Rightarrow> 'a jsval \<Rightarrow> bool" where
  "less_eq_jsval x y = (baseCompareAscending x y \<le> 0)"

definition less_jsval :: "'a jsval \<Rightarrow> 'a jsval \<Rightarrow> bool" where
  "less_jsval x y = (baseCompareAscending x y < 0)"

instance
proof
  fix x y z :: "'a jsval"
  show "(x < y) = (x \<le> y \<and> \<not> y \<le> x)"
    by (cases x; cases y) (auto simp: less_eq_jsval_def less_jsval_def)
  show "x \<le> x"
    by (cases x) (auto simp: less_eq_jsval_def)
  show "x \<le> y \<Longrightarrow> y \<le> z \<Longrightarrow> x \<le> z"
    by (cases x; cases y; cases z) (auto simp: less_eq_jsval_def split: if_splits)
  show "x \<le> y \<Longrightarrow> y \<le> x \<Longrightarrow> x = y"
    by (cases x; cases y) (auto simp: less_eq_jsval_def split: if_splits)
  show "x \<le> y \<or> y \<le> x"
    by (cases x; cases y) (auto simp: less_eq_jsval_def)
qed

end

text \<open>
  The comparison of two lists of criteria: the first pair of values that differ decides.
  (lodash then falls back on the positions of the two elements in the collection, which
  is what makes its sort stable.)
\<close>

fun compareMultiple :: "'v::linorder jsval list \<Rightarrow> 'v jsval list \<Rightarrow> int" where
  "compareMultiple (a # as) (b # bs) =
     (let result = baseCompareAscending a b
      in if result \<noteq> 0 then result else compareMultiple as bs)"
| "compareMultiple as bs = 0"

text \<open>
  The sort key of an entity is the list of its values at the field names; lists of one
  length are ordered lexicographically, which is the order of \<open>compareMultiple\<close>
  (\<open>key_le_iff_compareMultiple\<close> below). The stable sort by that key is the library's
  insertion sort \<open>sort_key\<close>.
\<close>

definition sortByAll :: "'v::linorder obj list \<Rightarrow> string list \<Rightarrow> 'v obj list" where
  "sortByAll collection fieldNames =
     sort_key (\<lambda>entity. map (get_prop entity) fieldNames) collection"

section \<open>QuerySet\<close>

record 'v queryset =
  idArr :: "'v jsval list"

definition new_qs :: "'v jsval list \<Rightarrow> 'v queryset" where
  "new_qs ids = \<lparr>idArr = ids\<rparr>"

text \<open>
  The function mapped over \<open>idArr\<close> by \<open>getFullEntities\<close>:
  \<open>Object.assign({[idAttribute]: id}, this.manager.getEntityMap()[id])\<close>.
\<close>

definition fullEntity :: "'v manager \<Rightarrow> 'v jsval \<Rightarrow> 'v obj" where
  "fullEntity m ident =
     object_assign [(idAttribute m, ident)]
       (case entityMap m ident of None \<Rightarrow> [] | Some r \<Rightarrow> r)"

definition getFullEntities :: "'v manager \<Rightarrow> 'v queryset \<Rightarrow> 'v obj list" where
  "getFullEntities m qs = map (fullEntity m) (idArr qs)"

definition count :: "'v queryset \<Rightarrow> nat" where
  "count qs = length (idArr qs)"

definition exists :: "'v queryset \<Rightarrow> bool" where
  "exists qs = (count qs \<noteq> 0)"

definition all_qs :: "'v queryset \<Rightarrow> 'v queryset" where
  "all_qs qs = new_qs (idArr qs)"

definition filter_qs :: "'v manager \<Rightarrow> 'v criteria \<Rightarrow> 'v queryset \<Rightarrow> 'v queryset" where
  "filter_qs m lookupObj qs =
     (let fullEntities = getFullEntities m qs;
          entities = (case lookupObj of
                        Predicate p \<Rightarrow> filter p fullEntities
                      | LookupObj l \<Rightarrow> filter (\<lambda>entity. match lookupObj entity) fullEntities);
          newIdArr = map (\<lambda>entity. get_prop entity (idAttribute m)) entities
      in new_qs newIdArr)"

text \<open>\<open>reject\<close> of lodash keeps the elements for which the function is not true.\<close>

definition reject :: "'a list \<Rightarrow> ('a \<Rightarrow> bool) \<Rightarrow> 'a list" where
  "reject collection p = filter (\<lambda>x. \<not> p x) collection"

definition exclude :: "'v manager \<Rightarrow> 'v criteria \<Rightarrow> 'v queryset \<Rightarrow> 'v queryset" where
  "exclude m lookupObj qs =
     (let entities = reject (getFullEntities m qs) (\<lambda>entity. match lookupObj entity)
      in new_qs (map (\<lambda>entity. get_prop entity (idAttribute m)) entities))"

definition orderBy :: "'v::linorder manager \<Rightarrow> string list \<Rightarrow> 'v queryset \<Rightarrow> 'v queryset" where
  "orderBy m fieldNames qs =
     (let entities = sortByAll (getFullEntities m qs) fieldNames
      in new_qs (map (\<lambda>entity. get_prop entity (idAttribute m)) entities))"

text \<open>
  \<open>update\<close> and \<open>delete\<close> return nothing; the model returns the receiver and the Manager
  as they are after the call.
\<close>

definition update_qs ::
  "'v updater \<Rightarrow> 'v queryset \<Rightarrow> 'v manager \<Rightarrow> 'v queryset \<times> 'v manager" where
  "update_qs upd qs m = (qs, m\<lparr>mutations := mutations m @ [UPDATE (idArr qs) upd]\<rparr>)"

definition delete_qs :: "'v queryset \<Rightarrow> 'v manager \<Rightarrow> 'v queryset \<times> 'v manager" where
  "delete_qs qs m = (qs, m\<lparr>mutations := mutations m @ [DELETE (idArr qs)]\<rparr>)"

section \<open>Entity\<close>

text \<open>
  An Entity keeps its fields on the instance itself: the constructor and \<open>update\<close> copy
  properties onto \<open>this\<close>, where the members \<open>manager\<close> and \<open>fieldNames\<close> live too, and
  the methods are found behind the own properties, on the prototype. A field that has
  the name of a member therefore replaces or hides that member. The instance is modelled
  as the list of its own properties, and the values it can hold as the type below: \<open>null\<close>,
  a number or boolean (\<open>Prim\<close>), a string, the Manager, an array of names, and
  \<open>Inherited n\<close>, which is what reading the name \<open>n\<close> gives when the instance has no own
  property \<open>n\<close> and the prototype chain has one. The Manager of an Entity, its
  identifiers and its log are taken at this type of values.
\<close>

datatype 'p evalue =
    Null
  | Prim 'p
  | Str string
  | TheManager
  | Names "string list"
  | Inherited string

text \<open>
  The names \<open>Entity.prototype\<close> and \<open>Object.prototype\<close> define. All but \<open>__proto__\<close>
  are writable properties, so that an assignment under such a name creates an own
  property of the instance.
\<close>

definition inherited_members :: "string list" where
  "inherited_members =
     [''constructor'', ''getId'', ''toPlain'', ''set'', ''update'', ''delete'',
      ''__defineGetter__'', ''__defineSetter__'', ''hasOwnProperty'', ''__lookupGetter__'',
      ''__lookupSetter__'', ''isPrototypeOf'', ''propertyIsEnumerable'', ''toString'',
      ''valueOf'', ''__proto__'', ''toLocaleString'']"

text \<open>\<open>this[name]\<close>: the own property, else the inherited member, else \<open>undefined\<close>.\<close>

definition read_member :: "'p evalue obj \<Rightarrow> string \<Rightarrow> 'p evalue jsval" where
  "read_member this name =
     (if name \<in> set (obj_keys this) then get_prop this name
      else if name \<in> set inherited_members then Val (Inherited name)
      else Undefined)"

text \<open>
  \<open>this[name] = v\<close>. Under the name \<open>__proto__\<close> the assignment runs the accessor of
  \<open>Object.prototype\<close>: it creates no own property, does nothing for a primitive other than
  \<open>null\<close>, and for \<open>null\<close> or an object replaces the prototype, after which the instance
  is no longer an Entity with these methods; that last case is answered \<open>None\<close>, for a
  state the model does not have.
\<close>

fun write_member :: "string \<Rightarrow> 'p evalue jsval \<Rightarrow> 'p evalue obj \<Rightarrow> 'p evalue obj option" where
  "write_member name v target =
     (if name = ''__proto__''
      then (case v of
              Undefined \<Rightarrow> Some target
            | Val (Prim p) \<Rightarrow> Some target
            | Val (Str s) \<Rightarrow> Some target
            | _ \<Rightarrow> None)
      else Some (set_prop name v target))"

text \<open>
  \<open>Object.assign(target, source)\<close> onto an instance: for each own key of the source, in
  order, \<open>target[key] = source[key]\<close>.
\<close>

fun assign_members ::
  "'p evalue obj \<Rightarrow> string list \<Rightarrow> 'p evalue obj \<Rightarrow> 'p evalue obj option" where
  "assign_members target [] source = Some target"
| "assign_members target (key # keys) source =
     (case write_member key (get_prop source key) target of
        None \<Rightarrow> None
      | Some target' \<Rightarrow> assign_members target' keys source)"

definition object_assign_members :: "'p evalue obj \<Rightarrow> 'p evalue obj \<Rightarrow> 'p evalue obj option" where
  "object_assign_members target source = assign_members target (obj_keys source) source"

text \<open>
  The own enumerable properties that \<open>Object.assign\<close> copies from the argument of
  \<open>update\<close>. An object to merge has the properties it is given by, and a function has
  none. Of the other values, a string has its characters, and an array its elements,
  under the decimal numerals of their positions; \<open>undefined\<close>, \<open>null\<close>, a number and a
  boolean have none. The properties of the Manager and of what the prototype chain holds
  are not given by the sources: \<open>None\<close>.
\<close>

fun string_of_nat :: "nat \<Rightarrow> string" where
  "string_of_nat n =
     (if n < 10 then [''0123456789'' ! n]
      else string_of_nat (n div 10) @ [''0123456789'' ! (n mod 10)])"

declare string_of_nat.simps [simp del]

definition indexed :: "'a list \<Rightarrow> (string \<times> 'a) list" where
  "indexed xs = zip (map string_of_nat [0..<length xs]) xs"

fun own_enumerable :: "'p evalue jsval \<Rightarrow> 'p evalue obj option" where
  "own_enumerable Undefined = Some []"
| "own_enumerable (Val Null) = Some []"
| "own_enumerable (Val (Prim p)) = Some []"
| "own_enumerable (Val (Str s)) = Some (indexed (map (\<lambda>c. Val (Str [c])) s))"
| "own_enumerable (Val (Names ns)) = Some (indexed (map (\<lambda>n. Val (Str n)) ns))"
| "own_enumerable (Val TheManager) = None"
| "own_enumerable (Val (Inherited n)) = None"

fun updater_source :: "'p evalue updater \<Rightarrow> 'p evalue obj option" where
  "updater_source (MergeObj mergeObj) = Some mergeObj"
| "updater_source (Transform f) = Some []"
| "updater_source (Primitive v) = own_enumerable v"

text \<open>
  A call returns a value and leaves a state, or throws and leaves a state, or is
  \<open>Outside\<close>: its effect involves a value or a state the model does not have. The state
  is the instance together with the Manager.
\<close>

datatype error = TypeError

datatype ('a, 's) outcome = Returns 'a 's | Throws error 's | Outside

type_synonym 'p state = "'p evalue obj \<times> 'p evalue manager"

text \<open>
  \<open>this.name(...)\<close>: the method runs when the instance has no own property of that
  name. An own property that holds anything but a function is not callable. An own
  property that holds an inherited function is \<open>Outside\<close>.
\<close>

definition invoke ::
  "string \<Rightarrow> ('p state \<Rightarrow> ('a, 'p state) outcome) \<Rightarrow> 'p state \<Rightarrow> ('a, 'p state) outcome" where
  "invoke name body s =
     (if name \<notin> set (obj_keys (fst s)) then body s
      else case get_prop (fst s) name of
             Val (Inherited n) \<Rightarrow> Outside
           | _ \<Rightarrow> Throws TypeError s)"

text \<open>
  The constructor: \<open>Object.assign(this, {manager}, props)\<close>, then
  \<open>this.fieldNames = Object.keys(props)\<close>. It has no failure path.
\<close>

definition new_entity :: "'p evalue obj \<Rightarrow> 'p evalue obj option" where
  "new_entity props =
     (case object_assign_members [] [(''manager'', Val TheManager)] of
        None \<Rightarrow> None
      | Some this \<Rightarrow>
          (case object_assign_members this props of
             None \<Rightarrow> None
           | Some this' \<Rightarrow> write_member ''fieldNames'' (Val (Names (obj_keys props))) this'))"

text \<open>
  \<open>getId\<close>: \<open>this[this.manager.getIdAttribute()]\<close>. The call of \<open>getIdAttribute\<close> throws
  unless \<open>this.manager\<close> is the Manager.
\<close>

definition getId :: "'p state \<Rightarrow> ('p evalue jsval, 'p state) outcome" where
  "getId s =
     (case s of (this, m) \<Rightarrow>
        (case read_member this ''manager'' of
           Val TheManager \<Rightarrow> Returns (read_member this (idAttribute m)) s
         | _ \<Rightarrow> Throws TypeError s))"



text \<open>
  \<open>update\<close>: the merge, then \<open>this.manager.mutations.push\<close>, which is looked up before
  its argument is evaluated and throws unless \<open>this.manager\<close> is the Manager, then the
  call \<open>this.getId()\<close> for the descriptor, then the push. What has been merged stays
  merged when a later step throws.
\<close>

definition update_entity :: "'p evalue updater \<Rightarrow> 'p state \<Rightarrow> (unit, 'p state) outcome" where
  "update_entity mergeObj s =
     (case s of (this, m) \<Rightarrow>
        (case updater_source mergeObj of
           None \<Rightarrow> Outside
         | Some source \<Rightarrow>
             (case object_assign_members this source of
                None \<Rightarrow> Outside
              | Some this' \<Rightarrow>
                  (case read_member this' ''manager'' of
                     Val TheManager \<Rightarrow>
                       (case invoke ''getId'' getId (this', m) of
                          Returns ident s' \<Rightarrow>
                            Returns ()
                              (this', m\<lparr>mutations := mutations m @ [UPDATE [ident] mergeObj]\<rparr>)
                        | Throws e s' \<Rightarrow> Throws e s'
                        | Outside \<Rightarrow> Outside)
                   | _ \<Rightarrow> Throws TypeError (this', m)))))"

definition set_entity :: "string \<Rightarrow> 'p evalue jsval \<Rightarrow> 'p state \<Rightarrow> (unit, 'p state) outcome" where
  "set_entity propertyName v s =
     invoke ''update'' (update_entity (MergeObj [(propertyName, v)])) s"

definition delete_entity :: "'p state \<Rightarrow> (unit, 'p state) outcome" where
  "delete_entity s =
     (case s of (this, m) \<Rightarrow>
        (case read_member this ''manager'' of
           Val TheManager \<Rightarrow>
             (case invoke ''getId'' getId s of
                Returns ident s' \<Rightarrow>
                  Returns () (this, m\<lparr>mutations := mutations m @ [DELETE [ident]]\<rparr>)
              | Throws e s' \<Rightarrow> Throws e s'
              | Outside \<Rightarrow> Outside)
         | _ \<Rightarrow> Throws TypeError s))"


section \<open>Auxiliary notions for the statements\<close>

text \<open>
  A stored record agrees with its key when it has no identifier field of its own or
  holds its key there. \<open>stored_ids_agree m ids\<close> says so for the records of \<open>ids\<close>.
\<close>

definition stored_ids_agree :: "'v manager \<Rightarrow> 'v jsval list \<Rightarrow> bool" where
  "stored_ids_agree m ids =
     list_all (\<lambda>ident. case entityMap m ident of
                 None \<Rightarrow> True
               | Some r \<Rightarrow> idAttribute m \<notin> set (obj_keys r) \<or> get_prop r (idAttribute m) = ident)
       ids"

text \<open>The sort key \<open>orderBy\<close> gives an identifier: its full entity's values at the field names.\<close>

definition sort_criteria :: "'v manager \<Rightarrow> string list \<Rightarrow> 'v jsval \<Rightarrow> 'v jsval list" where
  "sort_criteria m names ident = map (get_prop (fullEntity m ident)) names"

text \<open>
  The store of the spec's scenario, with numbers for the names: identifier field \<open>id\<close>,
  records \<open>{1: {name: 10}, 2: {name: 20}, 3: {name: 30}}\<close>, an empty log.
\<close>

definition scenario :: "nat manager" where
  "scenario =
     \<lparr>idAttribute = ''id'',
      entityMap = [Val 1 \<mapsto> [(''name'', Val 10)], Val 2 \<mapsto> [(''name'', Val 20)],
                   Val 3 \<mapsto> [(''name'', Val 30)]],
      mutations = []\<rparr>"

text \<open>
  A store whose records carry an identifier field that differs from their key:
  \<open>{1: {id: 2, name: 10}, 2: {id: 3, name: 20}}\<close>.
\<close>

definition rekeyed :: "nat manager" where
  "rekeyed =
     \<lparr>idAttribute = ''id'',
      entityMap = [Val 1 \<mapsto> [(''id'', Val 2), (''name'', Val 10)],
                   Val 2 \<mapsto> [(''id'', Val 3), (''name'', Val 20)]],
      mutations = []\<rparr>"

text \<open>
  A store in which two records have the same name:
  \<open>{1: {name: 20, age: 5}, 2: {name: 10, age: 7}, 3: {name: 20, age: 9}}\<close>.
\<close>

definition tied :: "nat manager" where
  "tied =
     \<lparr>idAttribute = ''id'',
      entityMap = [Val 1 \<mapsto> [(''name'', Val 20), (''age'', Val 5)],
                   Val 2 \<mapsto> [(''name'', Val 10), (''age'', Val 7)],
                   Val 3 \<mapsto> [(''name'', Val 20), (''age'', Val 9)]],
      mutations = []\<rparr>"

text \<open>
  The members that \<open>update\<close> uses are intact on an instance when \<open>manager\<close> is the
  Manager and no own property hides \<open>getId\<close> or \<open>update\<close>.
\<close>

definition members_intact :: "'p evalue obj \<Rightarrow> bool" where
  "members_intact this =
     (read_member this ''manager'' = Val TheManager
      \<and> ''getId'' \<notin> set (obj_keys this)
      \<and> ''update'' \<notin> set (obj_keys this))"

text \<open>The values that are neither an object nor a function.\<close>

fun is_primitive :: "'p evalue jsval \<Rightarrow> bool" where
  "is_primitive Undefined = True"
| "is_primitive (Val Null) = True"
| "is_primitive (Val (Prim p)) = True"
| "is_primitive (Val (Str s)) = True"
| "is_primitive (Val TheManager) = False"
| "is_primitive (Val (Names ns)) = False"
| "is_primitive (Val (Inherited n)) = False"


text \<open>
  A Manager for Entities with the identifier field \<open>id\<close> and an empty log, and the
  instance the constructor makes from \<open>{id: 1, name: 10}\<close>.
\<close>

definition library :: "nat evalue manager" where
  "library = \<lparr>idAttribute = ''id'', entityMap = Map.empty, mutations = []\<rparr>"

definition book :: "nat evalue obj" where
  "book =
     [(''manager'', Val TheManager), (''id'', Val (Prim 1)), (''name'', Val (Prim 10)),
      (''fieldNames'', Val (Names [''id'', ''name'']))]"

section \<open>Plain objects\<close>

lemma map_of_fold_set_prop:
  "map_of (fold (\<lambda>k t. set_prop k (g k) t) ks t) k =
     (if k \<in> set ks then Some (g k) else map_of t k)"
  by (induction ks arbitrary: t) (auto simp: set_prop_def update_conv')

lemma keys_fold_set_prop:
  "set (obj_keys (fold (\<lambda>k t. set_prop k (g k) t) ks t)) = set ks \<union> set (obj_keys t)"
  by (induction ks arbitrary: t) (auto simp: set_prop_def obj_keys_def dom_update)

lemma get_prop_object_assign:
  "get_prop (object_assign t s) k =
     (if k \<in> set (obj_keys s) then get_prop s k else get_prop t k)"
  by (simp add: object_assign_def get_prop_def map_of_fold_set_prop)

lemma keys_object_assign:
  "set (obj_keys (object_assign t s)) = set (obj_keys t) \<union> set (obj_keys s)"
  by (auto simp: object_assign_def keys_fold_set_prop)


lemma obj_keys_simps:
  "obj_keys [] = []"
  "obj_keys ((k, v) # obj) = k # obj_keys obj"
  by (simp_all add: obj_keys_def)

section \<open>Recording mutations\<close>

text \<open>
  C2. \<open>update\<close> and \<open>delete\<close> of a QuerySet leave the Manager's entity map (and its
  identifier field name) and the QuerySet's own identifier sequence as they were. Their
  only effect is one descriptor appended at the end of the Manager's log, after all the
  earlier entries: \<open>UPDATE\<close> with the QuerySet's identifier sequence and the updater, or
  \<open>DELETE\<close> with the identifier sequence.
\<close>

theorem queryset_update_delete_append_only:
  "idArr (fst (update_qs u v m)) = idArr v
   \<and> entityMap (snd (update_qs u v m)) = entityMap m
   \<and> idAttribute (snd (update_qs u v m)) = idAttribute m
   \<and> mutations (snd (update_qs u v m)) = mutations m @ [UPDATE (idArr v) u]
   \<and> idArr (fst (delete_qs v m)) = idArr v
   \<and> entityMap (snd (delete_qs v m)) = entityMap m
   \<and> idAttribute (snd (delete_qs v m)) = idAttribute m
   \<and> mutations (snd (delete_qs v m)) = mutations m @ [DELETE (idArr v)]"
  by (simp add: update_qs_def delete_qs_def)

section \<open>Entities: merging and recording\<close>

lemma assign_members_plain:
  "''__proto__'' \<notin> set ks \<Longrightarrow>
   assign_members t ks src = Some (fold (\<lambda>k t. set_prop k (get_prop src k) t) ks t)"
  by (induction ks arbitrary: t) auto

lemma object_assign_members_plain:
  "''__proto__'' \<notin> set (obj_keys src) \<Longrightarrow> object_assign_members t src = Some (object_assign t src)"
  by (simp add: object_assign_members_def object_assign_def assign_members_plain)

lemma read_member_object_assign:
  "read_member (object_assign t src) k =
     (if k \<in> set (obj_keys src) then get_prop src k else read_member t k)"
  by (simp add: read_member_def keys_object_assign get_prop_object_assign)

lemma update_entity_returns:
  assumes src: "updater_source u = Some src"
    and proto: "''__proto__'' \<notin> set (obj_keys src)"
    and mgr: "read_member this ''manager'' = Val TheManager" "''manager'' \<notin> set (obj_keys src)"
    and gid: "''getId'' \<notin> set (obj_keys this)" "''getId'' \<notin> set (obj_keys src)"
  shows "update_entity u (this, m) =
           Returns ()
             (object_assign this src,
              m\<lparr>mutations := mutations m @
                   [UPDATE [read_member (object_assign this src) (idAttribute m)] u]\<rparr>)"
  using assms
  by (simp add: update_entity_def object_assign_members_plain read_member_object_assign
        invoke_def getId_def keys_object_assign)

lemma invoke_method: "name \<notin> set (obj_keys (fst s)) \<Longrightarrow> invoke name body s = body s"
  by (simp add: invoke_def)

lemma getId_intact:
  "read_member this ''manager'' = Val TheManager \<Longrightarrow>
   getId (this, m) = Returns (read_member this (idAttribute m)) (this, m)"
  by (simp add: getId_def)

text \<open>
  C3 (as amended). Let the members \<open>manager\<close>, \<open>getId\<close> and \<open>update\<close> of an Entity be
  intact, and let \<open>mergeObj\<close> be an object none of whose keys is \<open>manager\<close>, \<open>getId\<close> or
  \<open>__proto__\<close>. Then \<open>update(mergeObj)\<close> returns. Afterwards every key of \<open>mergeObj\<close> reads
  back on the Entity the value \<open>mergeObj\<close> gives it, and every other name reads as before.
  The Manager's log has grown by exactly one \<open>UPDATE\<close> descriptor, whose identifier list
  is \<open>[getId()]\<close> of the Entity as the call leaves it and whose updater is \<open>mergeObj\<close>. The
  Manager's entity map is not changed.
\<close>

theorem entity_update_merges_and_records:
  assumes intact: "members_intact w"
    and keys: "''manager'' \<notin> set (obj_keys mergeObj)" "''getId'' \<notin> set (obj_keys mergeObj)"
      "''__proto__'' \<notin> set (obj_keys mergeObj)"
  shows "case invoke ''update'' (update_entity (MergeObj mergeObj)) (w, m) of
           Returns u (w', m') \<Rightarrow>
             (\<forall>k \<in> set (obj_keys mergeObj). read_member w' k = get_prop mergeObj k)
             \<and> (\<forall>k. k \<notin> set (obj_keys mergeObj) \<longrightarrow> read_member w' k = read_member w k)
             \<and> invoke ''getId'' getId (w', m') = Returns (read_member w' (idAttribute m)) (w', m')
             \<and> mutations m' =
                 mutations m @ [UPDATE [read_member w' (idAttribute m)] (MergeObj mergeObj)]
             \<and> entityMap m' = entityMap m
         | Throws e s \<Rightarrow> False
         | Outside \<Rightarrow> False"
proof -
  let ?w' = "object_assign w mergeObj"
  let ?m' = "m\<lparr>mutations := mutations m @ [UPDATE [read_member ?w' (idAttribute m)] (MergeObj mergeObj)]\<rparr>"
  from intact have mgr: "read_member w ''manager'' = Val TheManager"
    and gid: "''getId'' \<notin> set (obj_keys w)" and upd: "''update'' \<notin> set (obj_keys w)"
    by (simp_all add: members_intact_def)
  have "invoke ''update'' (update_entity (MergeObj mergeObj)) (w, m) =
          update_entity (MergeObj mergeObj) (w, m)"
    using upd by (simp add: invoke_method)
  also have "\<dots> = Returns () (?w', ?m')"
    using mgr gid keys by (simp add: update_entity_returns)
  finally have run: "invoke ''update'' (update_entity (MergeObj mergeObj)) (w, m) = Returns () (?w', ?m')" .
  have "''getId'' \<notin> set (obj_keys ?w')"
    using gid keys by (simp add: keys_object_assign)
  moreover have "read_member ?w' ''manager'' = Val TheManager"
    using mgr keys by (simp add: read_member_object_assign)
  ultimately have "invoke ''getId'' getId (?w', ?m') = Returns (read_member ?w' (idAttribute m)) (?w', ?m')"
    by (simp add: invoke_method getId_intact)
  then show ?thesis
    by (simp add: run read_member_object_assign)
qed

theorem entity_update_merges_and_records_witness:
  "members_intact book
   \<and> ''manager'' \<notin> set (obj_keys [(''name'', Val (Prim (99::nat)))])
   \<and> ''getId'' \<notin> set (obj_keys [(''name'', Val (Prim (99::nat)))])
   \<and> ''__proto__'' \<notin> set (obj_keys [(''name'', Val (Prim (99::nat)))])
   \<and> invoke ''update'' (update_entity (MergeObj [(''name'', Val (Prim 99))])) (book, library) =
       Returns ()
         ([(''manager'', Val TheManager), (''id'', Val (Prim 1)), (''name'', Val (Prim 99)),
           (''fieldNames'', Val (Names [''id'', ''name'']))],
          library\<lparr>mutations := [UPDATE [Val (Prim 1)] (MergeObj [(''name'', Val (Prim 99))])]\<rparr>)"
proof -
  have intact: "members_intact book"
    by (simp add: members_intact_def book_def read_member_def obj_keys_def get_prop_def)
  have keys: "''manager'' \<notin> set (obj_keys [(''name'', Val (Prim (99::nat)))])"
    "''getId'' \<notin> set (obj_keys [(''name'', Val (Prim (99::nat)))])"
    "''__proto__'' \<notin> set (obj_keys [(''name'', Val (Prim (99::nat)))])"
    by (simp_all add: obj_keys_def)
  from entity_update_merges_and_records [OF intact keys, of library]
  have "invoke ''update'' (update_entity (MergeObj [(''name'', Val (Prim 99))])) (book, library) =
       Returns ()
         ([(''manager'', Val TheManager), (''id'', Val (Prim 1)), (''name'', Val (Prim 99)),
           (''fieldNames'', Val (Names [''id'', ''name'']))],
          library\<lparr>mutations := [UPDATE [Val (Prim 1)] (MergeObj [(''name'', Val (Prim 99))])]\<rparr>)"
    by (simp add: invoke_def update_entity_def getId_def read_member_def
          object_assign_members_def obj_keys_def get_prop_def set_prop_def book_def library_def)
  with intact keys show ?thesis by simp
qed

text \<open>
  The claim as stated, for every Entity and every object, fails. A key \<open>manager\<close> or
  \<open>getId\<close> in the object replaces or hides the member of that name: the fields are
  merged, the call throws, and the log stays empty. A key \<open>__proto__\<close> is not read
  back. On an Entity that has a field \<open>update\<close>, the call itself throws.
\<close>

theorem entity_update_member_collision_counterexample:
  "new_entity [(''id'', Val (Prim 1)), (''name'', Val (Prim 10))] = Some book
   \<and> invoke ''update'' (update_entity (MergeObj [(''manager'', Val (Prim 7))])) (book, library) =
       Throws TypeError
         ([(''manager'', Val (Prim 7)), (''id'', Val (Prim 1)), (''name'', Val (Prim 10)),
           (''fieldNames'', Val (Names [''id'', ''name'']))],
          library)
   \<and> invoke ''update'' (update_entity (MergeObj [(''getId'', Val (Prim 0))])) (book, library) =
       Throws TypeError
         ([(''manager'', Val TheManager), (''id'', Val (Prim 1)), (''name'', Val (Prim 10)),
           (''fieldNames'', Val (Names [''id'', ''name''])), (''getId'', Val (Prim 0))],
          library)
   \<and> mutations library = []
   \<and> invoke ''update'' (update_entity (MergeObj [(''__proto__'', Val (Prim 5))])) (book, library) =
       Returns ()
         (book, library\<lparr>mutations := [UPDATE [Val (Prim 1)] (MergeObj [(''__proto__'', Val (Prim 5))])]\<rparr>)
   \<and> read_member book ''__proto__'' = Val (Inherited ''__proto__'')
   \<and> invoke ''update'' (update_entity (MergeObj [(''name'', Val (Prim 99))]))
         ([(''manager'', Val TheManager), (''id'', Val (Prim 1)), (''update'', Val (Prim 3)),
           (''fieldNames'', Val (Names [''id'', ''update'']))],
          library) =
       Throws TypeError
         ([(''manager'', Val TheManager), (''id'', Val (Prim 1)), (''update'', Val (Prim 3)),
           (''fieldNames'', Val (Names [''id'', ''update'']))],
          library)"
  by (simp add: new_entity_def invoke_def update_entity_def getId_def read_member_def
        inherited_members_def object_assign_members_def obj_keys_def get_prop_def set_prop_def
        book_def library_def)

text \<open>
  C10 (as amended). Under the same conditions on the Entity and on \<open>mergeObj\<close>, if
  \<open>mergeObj\<close> has the identifier field among its keys, then after \<open>update(mergeObj)\<close> the
  Entity reads the value of \<open>mergeObj\<close> in its identifier field, \<open>getId()\<close> returns that
  value, and the one descriptor appended carries it, whatever identifier the Entity held
  before: the merge comes before the identifier is read.
\<close>

theorem entity_update_reads_id_after_merge:
  assumes intact: "members_intact w"
    and ident: "idAttribute m \<in> set (obj_keys mergeObj)"
    and keys: "''manager'' \<notin> set (obj_keys mergeObj)" "''getId'' \<notin> set (obj_keys mergeObj)"
      "''__proto__'' \<notin> set (obj_keys mergeObj)"
  shows "case invoke ''update'' (update_entity (MergeObj mergeObj)) (w, m) of
           Returns u (w', m') \<Rightarrow>
             read_member w' (idAttribute m) = get_prop mergeObj (idAttribute m)
             \<and> invoke ''getId'' getId (w', m') = Returns (get_prop mergeObj (idAttribute m)) (w', m')
             \<and> mutations m' =
                 mutations m @ [UPDATE [get_prop mergeObj (idAttribute m)] (MergeObj mergeObj)]
         | Throws e s \<Rightarrow> False
         | Outside \<Rightarrow> False"
proof -
  let ?w' = "object_assign w mergeObj"
  let ?m' = "m\<lparr>mutations := mutations m @ [UPDATE [read_member ?w' (idAttribute m)] (MergeObj mergeObj)]\<rparr>"
  from intact have mgr: "read_member w ''manager'' = Val TheManager"
    and gid: "''getId'' \<notin> set (obj_keys w)" and upd: "''update'' \<notin> set (obj_keys w)"
    by (simp_all add: members_intact_def)
  have "invoke ''update'' (update_entity (MergeObj mergeObj)) (w, m) =
          update_entity (MergeObj mergeObj) (w, m)"
    using upd by (simp add: invoke_method)
  also have "\<dots> = Returns () (?w', ?m')"
    using mgr gid keys by (simp add: update_entity_returns)
  finally have run: "invoke ''update'' (update_entity (MergeObj mergeObj)) (w, m) = Returns () (?w', ?m')" .
  have new_id: "read_member ?w' (idAttribute m) = get_prop mergeObj (idAttribute m)"
    using ident by (simp add: read_member_object_assign)
  have "''getId'' \<notin> set (obj_keys ?w')"
    using gid keys by (simp add: keys_object_assign)
  moreover have "read_member ?w' ''manager'' = Val TheManager"
    using mgr keys by (simp add: read_member_object_assign)
  ultimately have "invoke ''getId'' getId (?w', ?m') = Returns (read_member ?w' (idAttribute m)) (?w', ?m')"
    by (simp add: invoke_method getId_intact)
  then show ?thesis
    by (simp add: run new_id)
qed

theorem entity_update_reads_id_after_merge_witness:
  "members_intact book
   \<and> idAttribute library \<in> set (obj_keys [(''id'', Val (Prim (7::nat)))])
   \<and> ''manager'' \<notin> set (obj_keys [(''id'', Val (Prim (7::nat)))])
   \<and> ''getId'' \<notin> set (obj_keys [(''id'', Val (Prim (7::nat)))])
   \<and> ''__proto__'' \<notin> set (obj_keys [(''id'', Val (Prim (7::nat)))])
   \<and> invoke ''getId'' getId (book, library) = Returns (Val (Prim 1)) (book, library)
   \<and> invoke ''update'' (update_entity (MergeObj [(''id'', Val (Prim 7))])) (book, library) =
       Returns ()
         ([(''manager'', Val TheManager), (''id'', Val (Prim 7)), (''name'', Val (Prim 10)),
           (''fieldNames'', Val (Names [''id'', ''name'']))],
          library\<lparr>mutations := [UPDATE [Val (Prim 7)] (MergeObj [(''id'', Val (Prim 7))])]\<rparr>)"
proof -
  have intact: "members_intact book"
    by (simp add: members_intact_def book_def read_member_def obj_keys_def get_prop_def)
  have ident: "idAttribute library \<in> set (obj_keys [(''id'', Val (Prim (7::nat)))])"
    by (simp add: library_def obj_keys_def)
  have keys: "''manager'' \<notin> set (obj_keys [(''id'', Val (Prim (7::nat)))])"
    "''getId'' \<notin> set (obj_keys [(''id'', Val (Prim (7::nat)))])"
    "''__proto__'' \<notin> set (obj_keys [(''id'', Val (Prim (7::nat)))])"
    by (simp_all add: obj_keys_def)
  have before: "invoke ''getId'' getId (book, library) = Returns (Val (Prim 1)) (book, library)"
    by (simp add: invoke_def getId_def read_member_def obj_keys_def get_prop_def book_def
          library_def)
  from entity_update_reads_id_after_merge [OF intact ident keys]
  have "invoke ''update'' (update_entity (MergeObj [(''id'', Val (Prim 7))])) (book, library) =
       Returns ()
         ([(''manager'', Val TheManager), (''id'', Val (Prim 7)), (''name'', Val (Prim 10)),
           (''fieldNames'', Val (Names [''id'', ''name'']))],
          library\<lparr>mutations := [UPDATE [Val (Prim 7)] (MergeObj [(''id'', Val (Prim 7))])]\<rparr>)"
    by (simp add: invoke_def update_entity_def getId_def read_member_def
          object_assign_members_def obj_keys_def get_prop_def set_prop_def book_def library_def)
  with intact ident keys before show ?thesis by simp
qed

text \<open>
  The claim as stated fails: with a key \<open>getId\<close> or \<open>manager\<close> beside the identifier
  field the call throws after the merge, and no descriptor is appended.
\<close>

theorem entity_update_new_id_not_recorded_counterexample:
  "idAttribute library \<in> set (obj_keys [(''id'', Val (Prim (7::nat))), (''getId'', Val (Prim 0))])
   \<and> mutations library = []
   \<and> invoke ''update'' (update_entity (MergeObj [(''id'', Val (Prim 7)), (''getId'', Val (Prim 0))]))
         (book, library) =
       Throws TypeError
         ([(''manager'', Val TheManager), (''id'', Val (Prim 7)), (''name'', Val (Prim 10)),
           (''fieldNames'', Val (Names [''id'', ''name''])), (''getId'', Val (Prim 0))],
          library)
   \<and> invoke ''update'' (update_entity (MergeObj [(''id'', Val (Prim 7)), (''manager'', Val (Prim 3))]))
         (book, library) =
       Throws TypeError
         ([(''manager'', Val (Prim 3)), (''id'', Val (Prim 7)), (''name'', Val (Prim 10)),
           (''fieldNames'', Val (Names [''id'', ''name'']))],
          library)"
  by (simp add: invoke_def update_entity_def getId_def read_member_def
        object_assign_members_def obj_keys_def get_prop_def set_prop_def book_def library_def)

section \<open>Serialising an Entity\<close>












section \<open>Full entities\<close>



text \<open>
  C9. Where the entity map holds, for an identifier of the QuerySet, a record that has
  the identifier field among its own keys, the object \<open>getFullEntities\<close> produces at
  that position has the record's value in the identifier field, not the identifier.
\<close>

theorem getFullEntities_stored_id_field_wins:
  "i < length (idArr v) \<Longrightarrow> entityMap m (idArr v ! i) = Some r \<Longrightarrow>
   idAttribute m \<in> set (obj_keys r) \<Longrightarrow>
   get_prop (getFullEntities m v ! i) (idAttribute m) = get_prop r (idAttribute m)"
  by (simp add: getFullEntities_def fullEntity_def get_prop_object_assign)

theorem getFullEntities_stored_id_field_wins_witness:
  "(0::nat) < length (idArr \<lparr>idArr = [Val (1::nat)]\<rparr>)
   \<and> entityMap rekeyed (idArr \<lparr>idArr = [Val 1]\<rparr> ! 0) = Some [(''id'', Val 2), (''name'', Val 10)]
   \<and> idAttribute rekeyed \<in> set (obj_keys [(''id'', Val (2::nat)), (''name'', Val 10)])
   \<and> get_prop (getFullEntities rekeyed \<lparr>idArr = [Val 1]\<rparr> ! 0) (idAttribute rekeyed) = Val 2"
proof -
  have pos: "(0::nat) < length (idArr \<lparr>idArr = [Val (1::nat)]\<rparr>)"
    by simp
  have stored: "entityMap rekeyed (idArr \<lparr>idArr = [Val 1]\<rparr> ! 0) =
                  Some [(''id'', Val 2), (''name'', Val 10)]"
    by (simp add: rekeyed_def)
  have own: "idAttribute rekeyed \<in> set (obj_keys [(''id'', Val (2::nat)), (''name'', Val 10)])"
    by (simp add: rekeyed_def obj_keys_def)
  have "get_prop [(''id'', Val (2::nat)), (''name'', Val 10)] (idAttribute rekeyed) = Val 2"
    by (simp add: get_prop_def rekeyed_def)
  with getFullEntities_stored_id_field_wins [OF pos stored own]
  have "get_prop (getFullEntities rekeyed \<lparr>idArr = [Val 1]\<rparr> ! 0) (idAttribute rekeyed) = Val 2"
    by simp
  with pos stored own show ?thesis by simp
qed

section \<open>Identifiers read back from full entities\<close>

text \<open>
  \<open>filter\<close>, \<open>exclude\<close> and \<open>orderBy\<close> build the new identifier sequence from the
  identifier field of the full entities. Where the stored records agree with their keys
  that field is the identifier the entity was made from, and the operations act on the
  identifier sequence itself.
\<close>

lemma fullEntity_id:
  assumes agree: "stored_ids_agree m ids" and mem: "ident \<in> set ids"
  shows "get_prop (fullEntity m ident) (idAttribute m) = ident"
proof -
  have own: "get_prop [(idAttribute m, ident)] (idAttribute m) = ident"
    by (simp add: get_prop_def)
  show ?thesis
  proof (cases "entityMap m ident")
    case None
    then show ?thesis
      by (simp add: fullEntity_def get_prop_object_assign obj_keys_simps own)
  next
    case (Some r)
    with agree mem
    have "idAttribute m \<notin> set (obj_keys r) \<or> get_prop r (idAttribute m) = ident"
      by (auto simp: stored_ids_agree_def list_all_iff)
    with Some show ?thesis
      by (auto simp: fullEntity_def get_prop_object_assign own)
  qed
qed

lemma map_filter_map_inv:
  "(\<And>x. x \<in> set xs \<Longrightarrow> f (g x) = x) \<Longrightarrow>
   map f (filter P (map g xs)) = filter (\<lambda>x. P (g x)) xs"
  by (induction xs) auto

lemma insort_key_map:
  "insort_key k (g x) (map g xs) = map g (insort_key (\<lambda>y. k (g y)) x xs)"
  by (induction xs) auto

lemma sort_key_map: "sort_key k (map g xs) = map g (sort_key (\<lambda>y. k (g y)) xs)"
  by (induction xs) (auto simp: insort_key_map)

lemma map_sort_key_map_inv:
  assumes "\<And>x. x \<in> set xs \<Longrightarrow> f (g x) = x"
  shows "map f (sort_key k (map g xs)) = sort_key (\<lambda>x. k (g x)) xs"
proof -
  have "map (\<lambda>x. f (g x)) (sort_key (\<lambda>y. k (g y)) xs) = sort_key (\<lambda>y. k (g y)) xs"
    by (rule map_idI) (simp add: assms)
  then have "map f (map g (sort_key (\<lambda>y. k (g y)) xs)) = sort_key (\<lambda>y. k (g y)) xs"
    by (simp add: comp_def)
  then show ?thesis by (simp add: sort_key_map)
qed

lemma idArr_filter_LookupObj:
  assumes "stored_ids_agree m (idArr v)"
  shows "idArr (filter_qs m (LookupObj l) v) =
           filter (\<lambda>ident. match (LookupObj l) (fullEntity m ident)) (idArr v)"
  using assms
  by (simp add: filter_qs_def new_qs_def getFullEntities_def map_filter_map_inv fullEntity_id)

lemma idArr_filter_Predicate:
  assumes "stored_ids_agree m (idArr v)"
  shows "idArr (filter_qs m (Predicate p) v) = filter (\<lambda>ident. p (fullEntity m ident)) (idArr v)"
  using assms
  by (simp add: filter_qs_def new_qs_def getFullEntities_def map_filter_map_inv fullEntity_id)

lemma idArr_exclude:
  assumes "stored_ids_agree m (idArr v)"
  shows "idArr (exclude m c v) = filter (\<lambda>ident. \<not> match c (fullEntity m ident)) (idArr v)"
  using assms
  by (simp add: exclude_def reject_def new_qs_def getFullEntities_def map_filter_map_inv
        fullEntity_id)

lemma idArr_orderBy:
  assumes "stored_ids_agree m (idArr v)"
  shows "idArr (orderBy m names v) = sort_key (sort_criteria m names) (idArr v)"
proof -
  have "sort_criteria m names = (\<lambda>ident. map (get_prop (fullEntity m ident)) names)"
    by (rule ext) (simp add: sort_criteria_def)
  with assms show ?thesis
    by (simp add: orderBy_def sortByAll_def new_qs_def getFullEntities_def
          map_sort_key_map_inv fullEntity_id)
qed

lemma key_le_iff_compareMultiple:
  "length as = length bs \<Longrightarrow> (as \<le> bs) = (compareMultiple as bs \<le> 0)"
proof (induction as bs rule: list_induct2)
  case Nil
  then show ?case by simp
next
  case (Cons a as b bs)
  then show ?case
    by (cases a; cases b) (auto simp: less_jsval_def Let_def)
qed

section \<open>Updaters are not validated\<close>

lemma string_of_nat_digits: "set (string_of_nat n) \<subseteq> set ''0123456789''"
proof (induction n rule: string_of_nat.induct)
  case (1 n)
  have digit: "''0123456789'' ! k \<in> set ''0123456789''" if "k < 10" for k
    using that by (intro nth_mem) simp
  show ?case
  proof (cases "n < 10")
    case True
    then show ?thesis
      using digit [of n] by (subst string_of_nat.simps) simp
  next
    case False
    with "1.IH" have "set (string_of_nat (n div 10)) \<subseteq> set ''0123456789''"
      by simp
    moreover have "''0123456789'' ! (n mod 10) \<in> set ''0123456789''"
      by (rule digit) simp
    ultimately show ?thesis
      using False by (subst string_of_nat.simps) simp
  qed
qed

lemma keys_indexed: "obj_keys (indexed xs) = map string_of_nat [0..<length xs]"
  by (simp add: indexed_def obj_keys_def)

lemma index_keys_not_member:
  assumes "c \<in> set name" and "c \<notin> set ''0123456789''"
  shows "name \<notin> set (obj_keys (indexed xs))"
proof
  assume "name \<in> set (obj_keys (indexed xs))"
  then obtain i where "name = string_of_nat i"
    by (auto simp: keys_indexed)
  with string_of_nat_digits [of i] assms show False
    by blast
qed

lemma primitive_source:
  assumes "is_primitive x"
  shows "\<exists>src. own_enumerable x = Some src
           \<and> ''manager'' \<notin> set (obj_keys src)
           \<and> ''getId'' \<notin> set (obj_keys src)
           \<and> ''__proto__'' \<notin> set (obj_keys src)"
proof (cases x rule: is_primitive.cases)
  case (4 s)
  have "''manager'' \<notin> set (obj_keys (indexed (map (\<lambda>c. Val (Str [c])) s)))"
    by (rule index_keys_not_member [of "CHR ''m''"]) simp_all
  moreover have "''getId'' \<notin> set (obj_keys (indexed (map (\<lambda>c. Val (Str [c])) s)))"
    by (rule index_keys_not_member [of "CHR ''g''"]) simp_all
  moreover have "''__proto__'' \<notin> set (obj_keys (indexed (map (\<lambda>c. Val (Str [c])) s)))"
    by (rule index_keys_not_member [of "CHR ''p''"]) simp_all
  ultimately show ?thesis
    using 4 by simp
qed (use assms in \<open>simp_all add: obj_keys_simps\<close>)

text \<open>
  C5 (as amended). Neither \<open>update\<close> inspects its argument. Called with a value that is
  neither an object nor a function, the QuerySet's \<open>update\<close> appends one \<open>UPDATE\<close>
  descriptor with its identifier sequence and that value as the updater. The Entity's
  \<open>update\<close>, on an Entity whose members \<open>manager\<close>, \<open>getId\<close> and \<open>update\<close> are intact,
  returns without an error: the Entity is as before, but for the characters that a string
  argument has copied onto it by position, and the log has grown by one \<open>UPDATE\<close>
  descriptor with \<open>[getId()]\<close> and that value.
\<close>

theorem update_appends_any_updater:
  assumes intact: "members_intact w" and prim: "is_primitive x"
  shows "mutations (snd (update_qs (Primitive p) v qm)) =
           mutations qm @ [UPDATE (idArr v) (Primitive p)]
   \<and> (case invoke ''update'' (update_entity (Primitive x)) (w, m) of
         Returns u (w', m') \<Rightarrow>
           Some w' = map_option (object_assign w) (own_enumerable x)
           \<and> invoke ''getId'' getId (w', m') = Returns (read_member w' (idAttribute m)) (w', m')
           \<and> mutations m' = mutations m @ [UPDATE [read_member w' (idAttribute m)] (Primitive x)]
       | Throws e s \<Rightarrow> False
       | Outside \<Rightarrow> False)"
proof -
  from primitive_source [OF prim] obtain src where src: "own_enumerable x = Some src"
    and keys: "''manager'' \<notin> set (obj_keys src)" "''getId'' \<notin> set (obj_keys src)"
      "''__proto__'' \<notin> set (obj_keys src)"
    by blast
  let ?w' = "object_assign w src"
  let ?m' = "m\<lparr>mutations := mutations m @ [UPDATE [read_member ?w' (idAttribute m)] (Primitive x)]\<rparr>"
  from intact have mgr: "read_member w ''manager'' = Val TheManager"
    and gid: "''getId'' \<notin> set (obj_keys w)" and upd: "''update'' \<notin> set (obj_keys w)"
    by (simp_all add: members_intact_def)
  have "invoke ''update'' (update_entity (Primitive x)) (w, m) = update_entity (Primitive x) (w, m)"
    using upd by (simp add: invoke_method)
  also have "\<dots> = Returns () (?w', ?m')"
    using src mgr gid keys by (intro update_entity_returns) simp_all
  finally have run: "invoke ''update'' (update_entity (Primitive x)) (w, m) = Returns () (?w', ?m')" .
  have "''getId'' \<notin> set (obj_keys ?w')"
    using gid keys by (simp add: keys_object_assign)
  moreover have "read_member ?w' ''manager'' = Val TheManager"
    using mgr keys by (simp add: read_member_object_assign)
  ultimately have "invoke ''getId'' getId (?w', ?m') = Returns (read_member ?w' (idAttribute m)) (?w', ?m')"
    by (simp add: invoke_method getId_intact)
  then show ?thesis
    by (simp add: run src update_qs_def)
qed

theorem update_appends_any_updater_witness:
  "members_intact book
   \<and> is_primitive (Val (Str ''ab'') :: nat evalue jsval)
   \<and> is_primitive (Undefined :: nat evalue jsval)
   \<and> invoke ''update'' (update_entity (Primitive (Val (Str ''ab'')))) (book, library) =
       Returns ()
         ([(''manager'', Val TheManager), (''id'', Val (Prim 1)), (''name'', Val (Prim 10)),
           (''fieldNames'', Val (Names [''id'', ''name''])),
           (''0'', Val (Str ''a'')), (''1'', Val (Str ''b''))],
          library\<lparr>mutations := [UPDATE [Val (Prim 1)] (Primitive (Val (Str ''ab'')))]\<rparr>)"
proof -
  have intact: "members_intact book"
    by (simp add: members_intact_def book_def read_member_def obj_keys_def get_prop_def)
  have prim: "is_primitive (Val (Str ''ab'') :: nat evalue jsval)"
    by simp
  from update_appends_any_updater [OF intact prim, where m = library]
  have "invoke ''update'' (update_entity (Primitive (Val (Str ''ab'')))) (book, library) =
       Returns ()
         ([(''manager'', Val TheManager), (''id'', Val (Prim 1)), (''name'', Val (Prim 10)),
           (''fieldNames'', Val (Names [''id'', ''name''])),
           (''0'', Val (Str ''a'')), (''1'', Val (Str ''b''))],
          library\<lparr>mutations := [UPDATE [Val (Prim 1)] (Primitive (Val (Str ''ab'')))]\<rparr>)"
    by (simp add: invoke_def update_entity_def getId_def read_member_def indexed_def
          object_assign_members_def obj_keys_def get_prop_def set_prop_def book_def library_def
          upt_rec [of 0] upt_rec [of "Suc 0"] upt_rec [of 1] string_of_nat.simps)
  with intact prim show ?thesis by simp
qed

text \<open>
  The claim as stated fails: with \<open>undefined\<close> for the updater both calls return and the
  log, empty before, holds a descriptor afterwards. Where an error is raised, on an
  Entity constructed with a field \<open>manager\<close>, it is the TypeError of the push.
\<close>

theorem update_invalid_updater_counterexample:
  "mutations scenario = []
   \<and> mutations (snd (update_qs (Primitive Undefined) \<lparr>idArr = [Val 1, Val 2]\<rparr> scenario)) =
       [UPDATE [Val 1, Val 2] (Primitive Undefined)]
   \<and> mutations library = []
   \<and> invoke ''update'' (update_entity (Primitive Undefined)) (book, library) =
       Returns () (book, library\<lparr>mutations := [UPDATE [Val (Prim 1)] (Primitive Undefined)]\<rparr>)
   \<and> new_entity [(''id'', Val (Prim 1)), (''manager'', Val (Prim 7))] =
       Some [(''manager'', Val (Prim 7)), (''id'', Val (Prim 1)),
             (''fieldNames'', Val (Names [''id'', ''manager'']))]
   \<and> invoke ''update'' (update_entity (Primitive Undefined))
         ([(''manager'', Val (Prim 7)), (''id'', Val (Prim 1)),
           (''fieldNames'', Val (Names [''id'', ''manager'']))],
          library) =
       Throws TypeError
         ([(''manager'', Val (Prim 7)), (''id'', Val (Prim 1)),
           (''fieldNames'', Val (Names [''id'', ''manager'']))],
          library)"
  by (simp add: update_qs_def new_entity_def invoke_def update_entity_def getId_def
        read_member_def object_assign_members_def obj_keys_def get_prop_def set_prop_def
        book_def library_def scenario_def)

section \<open>Narrowing and reordering\<close>

text \<open>
  C8 (as amended). If every record the entity map holds for an identifier of the
  QuerySet agrees with its key (it has no identifier field, or holds the identifier
  there), then \<open>filter\<close>, \<open>exclude\<close> and \<open>orderBy\<close> yield only identifiers of the
  QuerySet they are applied to. \<open>all\<close> does so for every store.
\<close>

theorem narrowing_draws_from_receiver:
  fixes m :: "'v::linorder manager"
  shows "set (idArr (all_qs v)) \<subseteq> set (idArr v)
   \<and> (stored_ids_agree m (idArr v) \<longrightarrow>
        set (idArr (filter_qs m c v)) \<subseteq> set (idArr v)
        \<and> set (idArr (exclude m c v)) \<subseteq> set (idArr v)
        \<and> set (idArr (orderBy m names v)) \<subseteq> set (idArr v))"
proof -
  have "set (idArr (filter_qs m c v)) \<subseteq> set (idArr v)" if "stored_ids_agree m (idArr v)"
    using that by (cases c) (simp_all add: idArr_filter_LookupObj idArr_filter_Predicate)
  then show ?thesis
    by (simp add: all_qs_def new_qs_def idArr_exclude idArr_orderBy)
qed

theorem narrowing_draws_from_receiver_witness:
  "stored_ids_agree scenario (idArr \<lparr>idArr = [Val 3, Val 1, Val 2]\<rparr>)
   \<and> idArr (filter_qs scenario (LookupObj [(''name'', Val 20)]) \<lparr>idArr = [Val 3, Val 1, Val 2]\<rparr>)
       = [Val 2]
   \<and> idArr (exclude scenario (LookupObj [(''name'', Val 20)]) \<lparr>idArr = [Val 3, Val 1, Val 2]\<rparr>)
       = [Val 3, Val 1]
   \<and> idArr (orderBy scenario [''name''] \<lparr>idArr = [Val 3, Val 1, Val 2]\<rparr>)
       = [Val 1, Val 2, Val 3]
   \<and> set (idArr (filter_qs scenario (LookupObj [(''name'', Val 20)])
                   \<lparr>idArr = [Val 3, Val 1, Val 2]\<rparr>))
       \<subseteq> set (idArr \<lparr>idArr = [Val 3, Val 1, Val 2]\<rparr>)"
  using narrowing_draws_from_receiver
          [where m = scenario and v = "\<lparr>idArr = [Val 3, Val 1, Val 2]\<rparr>"
             and c = "LookupObj [(''name'', Val 20)]" and names = "[''name'']"]
  by (simp add: stored_ids_agree_def filter_qs_def exclude_def reject_def orderBy_def
        sortByAll_def match_def new_qs_def getFullEntities_def fullEntity_def
        object_assign_def obj_keys_def get_prop_def set_prop_def scenario_def
        less_eq_jsval_def less_jsval_def)

text \<open>
  The claim as stated fails where a stored record has another identifier in its
  identifier field: \<open>filter({})\<close> on the QuerySet of identifier 1 yields identifier 2.
\<close>

theorem narrowing_invents_identifier_counterexample:
  "idArr (filter_qs rekeyed (LookupObj []) \<lparr>idArr = [Val 1]\<rparr>) = [Val 2]
   \<and> Val 2 \<notin> set (idArr \<lparr>idArr = [Val (1::nat)]\<rparr>)"
  by (simp add: filter_qs_def match_def new_qs_def getFullEntities_def fullEntity_def
        object_assign_def obj_keys_def get_prop_def set_prop_def rekeyed_def)

text \<open>
  C4 (as amended). If every record the entity map holds for an identifier of the
  QuerySet agrees with its key, then \<open>orderBy\<close> rearranges the identifiers so that they
  ascend by their full entities' values at the field names, an earlier field name
  deciding before a later one; identifiers whose full entities have the same values at
  all the field names keep their relative order; and ordering the result again by the
  same field names gives the same QuerySet.
\<close>

theorem orderBy_sorts_stably:
  fixes m :: "'v::linorder manager"
  assumes agree: "stored_ids_agree m (idArr v)"
  shows "mset (idArr (orderBy m names v)) = mset (idArr v)
   \<and> sorted_wrt (\<lambda>a b. compareMultiple (sort_criteria m names a) (sort_criteria m names b) \<le> 0)
         (idArr (orderBy m names v))
   \<and> (\<forall>k. filter (\<lambda>a. sort_criteria m names a = k) (idArr (orderBy m names v)) =
              filter (\<lambda>a. sort_criteria m names a = k) (idArr v))
   \<and> orderBy m names (orderBy m names v) = orderBy m names v"
proof -
  let ?key = "sort_criteria m names"
  let ?ids = "idArr (orderBy m names v)"
  have ids: "?ids = sort_key ?key (idArr v)"
    using agree by (rule idArr_orderBy)
  have perm: "mset ?ids = mset (idArr v)"
    by (simp add: ids)
  have "sorted (map ?key ?ids)"
    by (simp add: ids)
  then have "sorted_wrt (\<lambda>a b. ?key a \<le> ?key b) ?ids"
    by (simp add: sorted_map)
  moreover have "(?key a \<le> ?key b) = (compareMultiple (?key a) (?key b) \<le> 0)" for a b
    by (rule key_le_iff_compareMultiple) (simp add: sort_criteria_def)
  ultimately have ascending:
    "sorted_wrt (\<lambda>a b. compareMultiple (?key a) (?key b) \<le> 0) ?ids"
    by simp
  have stable: "filter (\<lambda>a. ?key a = k) ?ids = filter (\<lambda>a. ?key a = k) (idArr v)" for k
    by (simp add: ids sort_key_stable)
  have "stored_ids_agree m ?ids"
    using agree by (simp add: ids stored_ids_agree_def list_all_iff)
  then have "idArr (orderBy m names (orderBy m names v)) = sort_key ?key ?ids"
    by (rule idArr_orderBy)
  also have "\<dots> = ?ids"
    by (rule sort_key_id_if_sorted) (simp add: ids)
  finally have "orderBy m names (orderBy m names v) = orderBy m names v"
    by (simp add: orderBy_def [of m names "orderBy m names v"] orderBy_def [of m names v]
          new_qs_def Let_def)
  with perm ascending stable show ?thesis by simp
qed

theorem orderBy_sorts_stably_witness:
  "stored_ids_agree tied (idArr \<lparr>idArr = [Val 3, Val 1, Val 2]\<rparr>)
   \<and> idArr (orderBy tied [''name''] \<lparr>idArr = [Val 3, Val 1, Val 2]\<rparr>) = [Val 2, Val 3, Val 1]
   \<and> idArr (orderBy tied [''name'', ''age''] \<lparr>idArr = [Val 3, Val 1, Val 2]\<rparr>) =
       [Val 2, Val 1, Val 3]
   \<and> orderBy tied [''name''] (orderBy tied [''name''] \<lparr>idArr = [Val 3, Val 1, Val 2]\<rparr>) =
       orderBy tied [''name''] \<lparr>idArr = [Val 3, Val 1, Val 2]\<rparr>"
proof -
  have agree: "stored_ids_agree tied (idArr \<lparr>idArr = [Val 3, Val 1, Val 2]\<rparr>)"
    by (simp add: stored_ids_agree_def tied_def obj_keys_def)
  have by_name:
    "idArr (orderBy tied [''name''] \<lparr>idArr = [Val 3, Val 1, Val 2]\<rparr>) = [Val 2, Val 3, Val 1]"
    by (simp add: orderBy_def sortByAll_def new_qs_def getFullEntities_def fullEntity_def
          object_assign_def obj_keys_def get_prop_def set_prop_def tied_def
          less_eq_jsval_def less_jsval_def)
  have by_name_age:
    "idArr (orderBy tied [''name'', ''age''] \<lparr>idArr = [Val 3, Val 1, Val 2]\<rparr>) =
       [Val 2, Val 1, Val 3]"
    by (simp add: orderBy_def sortByAll_def new_qs_def getFullEntities_def fullEntity_def
          object_assign_def obj_keys_def get_prop_def set_prop_def tied_def
          less_eq_jsval_def less_jsval_def)
  from orderBy_sorts_stably [OF agree, of "[''name'']"]
  have "orderBy tied [''name''] (orderBy tied [''name''] \<lparr>idArr = [Val 3, Val 1, Val 2]\<rparr>) =
          orderBy tied [''name''] \<lparr>idArr = [Val 3, Val 1, Val 2]\<rparr>"
    by (rule conjunct2 [THEN conjunct2, THEN conjunct2])
  with agree by_name by_name_age show ?thesis by simp
qed

text \<open>
  The claim as stated fails where stored records have another identifier in their
  identifier field: ordering the QuerySet of identifier 1 yields identifier 2, and
  ordering that again by the same field names yields identifier 3.
\<close>

theorem orderBy_not_idempotent_counterexample:
  "idArr (orderBy rekeyed [''name''] \<lparr>idArr = [Val 1]\<rparr>) = [Val 2]
   \<and> idArr (orderBy rekeyed [''name''] (orderBy rekeyed [''name''] \<lparr>idArr = [Val 1]\<rparr>)) = [Val 3]
   \<and> orderBy rekeyed [''name''] (orderBy rekeyed [''name''] \<lparr>idArr = [Val 1]\<rparr>) \<noteq>
       orderBy rekeyed [''name''] \<lparr>idArr = [Val 1]\<rparr>"
  by (simp add: orderBy_def sortByAll_def new_qs_def getFullEntities_def fullEntity_def
        object_assign_def obj_keys_def get_prop_def set_prop_def rekeyed_def)

text \<open>
  C1 (as amended). For an object of properties \<open>l\<close>, the counts of \<open>filter(l)\<close> and
  \<open>exclude(l)\<close> add up to the count of the QuerySet. If moreover every record the
  entity map holds for an identifier of the QuerySet agrees with its key, then
  \<open>filter(l)\<close> is the identifier sequence restricted, in order, to the identifiers whose
  full entity matches \<open>l\<close>, \<open>exclude(l)\<close> is it restricted, in order, to those whose full
  entity does not match \<open>l\<close> by the same rule, the two results have no identifier in
  common, and together they have exactly the identifiers of the QuerySet; and \<open>filter(p)\<close>
  for a function \<open>p\<close> is the identifier sequence restricted, in order, to the identifiers
  whose full entity satisfies \<open>p\<close>.
\<close>

theorem filter_exclude_partition:
  "count (filter_qs m (LookupObj l) v) + count (exclude m (LookupObj l) v) = count v
   \<and> (stored_ids_agree m (idArr v) \<longrightarrow>
        idArr (filter_qs m (LookupObj l) v) =
          filter (\<lambda>a. match (LookupObj l) (fullEntity m a)) (idArr v)
        \<and> idArr (exclude m (LookupObj l) v) =
          filter (\<lambda>a. \<not> match (LookupObj l) (fullEntity m a)) (idArr v)
        \<and> set (idArr (filter_qs m (LookupObj l) v)) \<inter> set (idArr (exclude m (LookupObj l) v)) = {}
        \<and> set (idArr (filter_qs m (LookupObj l) v)) \<union> set (idArr (exclude m (LookupObj l) v)) =
          set (idArr v)
        \<and> idArr (filter_qs m (Predicate p) v) = filter (\<lambda>a. p (fullEntity m a)) (idArr v))"
proof -
  have counts: "count (filter_qs m (LookupObj l) v) + count (exclude m (LookupObj l) v) = count v"
    by (simp add: count_def filter_qs_def exclude_def reject_def new_qs_def getFullEntities_def
          comp_def sum_length_filter_compl)
  have "set (filter P xs) \<inter> set (filter (\<lambda>a. \<not> P a) xs) = {}"
    and "set (filter P xs) \<union> set (filter (\<lambda>a. \<not> P a) xs) = set xs"
    for P and xs :: "'a jsval list"
    by auto
  then show ?thesis
    using counts
    by (simp add: idArr_filter_LookupObj idArr_filter_Predicate idArr_exclude)
qed

theorem filter_exclude_partition_witness:
  "stored_ids_agree scenario (idArr \<lparr>idArr = [Val 1, Val 2, Val 3]\<rparr>)
   \<and> idArr (filter_qs scenario (LookupObj [(''name'', Val 20)]) \<lparr>idArr = [Val 1, Val 2, Val 3]\<rparr>)
       = [Val 2]
   \<and> idArr (exclude scenario (LookupObj [(''name'', Val 20)]) \<lparr>idArr = [Val 1, Val 2, Val 3]\<rparr>)
       = [Val 1, Val 3]
   \<and> idArr (filter_qs scenario (Predicate (\<lambda>entity. get_prop entity ''name'' \<noteq> Val 20))
              \<lparr>idArr = [Val 1, Val 2, Val 3]\<rparr>)
       = [Val 1, Val 3]
   \<and> count (filter_qs scenario (LookupObj [(''name'', Val 20)]) \<lparr>idArr = [Val 1, Val 2, Val 3]\<rparr>)
       + count (exclude scenario (LookupObj [(''name'', Val 20)]) \<lparr>idArr = [Val 1, Val 2, Val 3]\<rparr>)
       = count \<lparr>idArr = [Val (1::nat), Val 2, Val 3]\<rparr>"
  using filter_exclude_partition
          [where m = scenario and v = "\<lparr>idArr = [Val 1, Val 2, Val 3]\<rparr>"
             and l = "[(''name'', Val 20)]"
             and p = "\<lambda>entity. get_prop entity ''name'' \<noteq> Val 20"]
  by (simp add: stored_ids_agree_def filter_qs_def exclude_def reject_def count_def
        match_def new_qs_def getFullEntities_def fullEntity_def
        object_assign_def obj_keys_def get_prop_def set_prop_def scenario_def)

text \<open>
  The claim as stated fails in two ways. \<open>exclude\<close> does not test for a function as
  \<open>filter\<close> does: it hands the function to \<open>match\<close>, which finds no property on it and
  so matches every entity, and \<open>exclude\<close> returns the empty QuerySet whatever the
  function says. And where stored records have another identifier in their identifier
  field, the results hold identifiers that the QuerySet does not have.
\<close>

theorem filter_exclude_partition_counterexample:
  "idArr (filter_qs scenario (Predicate (\<lambda>entity. get_prop entity ''name'' = Val 20))
            \<lparr>idArr = [Val 1, Val 2, Val 3]\<rparr>) = [Val 2]
   \<and> idArr (exclude scenario (Predicate (\<lambda>entity. get_prop entity ''name'' = Val 20))
            \<lparr>idArr = [Val 1, Val 2, Val 3]\<rparr>) = []
   \<and> count (filter_qs scenario (Predicate (\<lambda>entity. get_prop entity ''name'' = Val 20))
            \<lparr>idArr = [Val 1, Val 2, Val 3]\<rparr>)
       + count (exclude scenario (Predicate (\<lambda>entity. get_prop entity ''name'' = Val 20))
            \<lparr>idArr = [Val 1, Val 2, Val 3]\<rparr>)
       \<noteq> count \<lparr>idArr = [Val (1::nat), Val 2, Val 3]\<rparr>
   \<and> idArr (filter_qs rekeyed (LookupObj [(''name'', Val 10)]) \<lparr>idArr = [Val 1, Val 2]\<rparr>)
       = [Val 2]
   \<and> idArr (exclude rekeyed (LookupObj [(''name'', Val 10)]) \<lparr>idArr = [Val 1, Val 2]\<rparr>)
       = [Val 3]
   \<and> set (idArr (filter_qs rekeyed (LookupObj [(''name'', Val 10)]) \<lparr>idArr = [Val 1, Val 2]\<rparr>))
       \<union> set (idArr (exclude rekeyed (LookupObj [(''name'', Val 10)]) \<lparr>idArr = [Val 1, Val 2]\<rparr>))
       \<noteq> set (idArr \<lparr>idArr = [Val (1::nat), Val 2]\<rparr>)"
proof -
  let ?p = "Predicate (\<lambda>entity. get_prop entity ''name'' = Val (20::nat))"
  let ?v = "\<lparr>idArr = [Val (1::nat), Val 2, Val 3]\<rparr>"
  let ?l = "LookupObj [(''name'', Val (10::nat))]"
  let ?w = "\<lparr>idArr = [Val (1::nat), Val 2]\<rparr>"
  have kept: "idArr (filter_qs scenario ?p ?v) = [Val 2]"
    by (simp add: filter_qs_def new_qs_def getFullEntities_def fullEntity_def
          object_assign_def obj_keys_def get_prop_def set_prop_def scenario_def)
  have dropped: "idArr (exclude scenario ?p ?v) = []"
    by (simp add: exclude_def reject_def match_def new_qs_def getFullEntities_def
          fullEntity_def object_assign_def obj_keys_def get_prop_def set_prop_def scenario_def)
  have counts: "count (filter_qs scenario ?p ?v) + count (exclude scenario ?p ?v) \<noteq> count ?v"
    using kept dropped by (simp add: count_def)
  have kept': "idArr (filter_qs rekeyed ?l ?w) = [Val 2]"
    by (simp add: filter_qs_def match_def new_qs_def getFullEntities_def fullEntity_def
          object_assign_def obj_keys_def get_prop_def set_prop_def rekeyed_def)
  have dropped': "idArr (exclude rekeyed ?l ?w) = [Val 3]"
    by (simp add: exclude_def reject_def match_def new_qs_def getFullEntities_def
          fullEntity_def object_assign_def obj_keys_def get_prop_def set_prop_def rekeyed_def)
  have "Val 3 \<in> set (idArr (filter_qs rekeyed ?l ?w)) \<union> set (idArr (exclude rekeyed ?l ?w))"
    using kept' dropped' by simp
  moreover have "Val 3 \<notin> set (idArr ?w)"
    by simp
  ultimately have union:
    "set (idArr (filter_qs rekeyed ?l ?w)) \<union> set (idArr (exclude rekeyed ?l ?w)) \<noteq> set (idArr ?w)"
    by blast
  from kept dropped counts kept' dropped' union show ?thesis
    by (intro conjI)
qed

end
